theory Spec2Isabelle
  imports Main "HOL-Library.Sublist"
begin

section \<open>JavaScript values used by \<open>src/utils.js\<close>\<close>

text \<open>
  Strings are character lists. A JavaScript number is either \<open>NaN\<close> or, for the
  values that occur here (hop counts, hop indices, the millisecond timestamps that
  \<open>Date.parse\<close> returns), an integer. Every comparison with \<open>NaN\<close> is false.
\<close>

datatype js_number = NaN | Num int

fun isNaN :: "js_number \<Rightarrow> bool" where
  "isNaN NaN = True"
| "isNaN (Num _) = False"

fun num_lt :: "js_number \<Rightarrow> js_number \<Rightarrow> bool" where
  "num_lt (Num a) (Num b) = (a < b)"
| "num_lt _ _ = False"

fun num_le :: "js_number \<Rightarrow> js_number \<Rightarrow> bool" where
  "num_le (Num a) (Num b) = (a \<le> b)"
| "num_le _ _ = False"

fun num_gt :: "js_number \<Rightarrow> js_number \<Rightarrow> bool" where
  "num_gt (Num a) (Num b) = (a > b)"
| "num_gt _ _ = False"

datatype js_error = TypeError string

text \<open>\<open>s.includes(sub)\<close>: \<open>sub\<close> occurs in \<open>s\<close> as a contiguous substring.\<close>

fun str_includes :: "string \<Rightarrow> string \<Rightarrow> bool" where
  "str_includes [] sub = (sub = [])"
| "str_includes (c # cs) sub = (prefix sub (c # cs) \<or> str_includes cs sub)"

text \<open>\<open>s.substring(a, b)\<close> for \<open>a \<le> b\<close>.\<close>

definition substring :: "string \<Rightarrow> nat \<Rightarrow> nat \<Rightarrow> string" where
  "substring s a b = take (b - a) (drop a s)"

section \<open>Path normalisation\<close>

text \<open>
  \<open>removeDuplicateSlashes(path) = path.replace(/\/{2,}/g, '/')\<close>. The scan goes left to
  right; where at least two slashes start, the greedy quantifier takes the whole run of
  slashes and the run is replaced by one slash; any other character is copied.
\<close>

function removeDuplicateSlashes :: "string \<Rightarrow> string" where
  "removeDuplicateSlashes [] = []"
| "removeDuplicateSlashes (c # cs) =
     (if c = CHR ''/'' \<and> (case cs of [] \<Rightarrow> False | d # _ \<Rightarrow> d = CHR ''/'')
      then CHR ''/'' # removeDuplicateSlashes (dropWhile (\<lambda>x. x = CHR ''/'') cs)
      else c # removeDuplicateSlashes cs)"
  by pat_completeness auto
termination
  by (relation "measure length") (auto simp: less_Suc_eq_le length_dropWhile_le)

declare removeDuplicateSlashes.simps(2) [simp del]

text \<open>No two neighbouring characters of the string are both slashes.\<close>

fun no_double_slash :: "string \<Rightarrow> bool" where
  "no_double_slash (a # b # cs) = (\<not> (a = CHR ''/'' \<and> b = CHR ''/'') \<and> no_double_slash (b # cs))"
| "no_double_slash _ = True"

section \<open>Route pattern classification\<close>

text \<open>
  A route pattern is a string template or an already compiled regular expression
  (\<open>pattern instanceof RegExp\<close>); the type parameter is the regular expression.
\<close>

datatype 'r pattern = PString string | PRegExp 'r

fun needsConversionToRegex :: "'r pattern \<Rightarrow> bool" where
  "needsConversionToRegex (PRegExp _) = False"
| "needsConversionToRegex (PString p) =
     (if p = ''/*'' then False
      else str_includes p ''*'' \<or> str_includes p ''?'' \<or> str_includes p ''+'' \<or> str_includes p ''('' \<or>
           str_includes p '')'' \<or> str_includes p '':'' \<or> str_includes p ''{'' \<or> str_includes p ''}'' \<or>
           str_includes p ''['' \<or> str_includes p '']'')"

fun canBeOptimized :: "'r pattern \<Rightarrow> bool" where
  "canBeOptimized (PRegExp _) = False"
| "canBeOptimized (PString p) =
     (if p = ''/*'' then False
      else if str_includes p ''*'' \<or> str_includes p ''?'' \<or> str_includes p ''+'' \<or> str_includes p ''('' \<or>
              str_includes p '')'' \<or> str_includes p ''{'' \<or> str_includes p ''}'' \<or>
              str_includes p ''['' \<or> str_includes p '']''
      then False
      else True)"

text \<open>The nine characters that \<open>canBeOptimized\<close> looks for.\<close>

definition regex_chars :: "char set" where
  "regex_chars = {CHR ''*'', CHR ''?'', CHR ''+'', CHR ''('', CHR '')'', CHR ''{'', CHR ''}'',
                  CHR ''['', CHR '']''}"

section \<open>Proxy trust\<close>

text \<open>
  The values \<open>compileTrust\<close> can be handed: the setting is a boolean, a number, a string,
  an array or a function, and anything else (\<open>undefined\<close>, \<open>null\<close>, some other object)
  can be passed as well. A trust function takes the address and the hop index.
\<close>

type_synonym trust_fn = "string \<Rightarrow> int \<Rightarrow> bool"

datatype js_value =
    JUndefined
  | JNull
  | JBool bool
  | JNumber js_number
  | JString string
  | JArray "js_value list"
  | JFunction trust_fn
  | JObject

text \<open>JavaScript truthiness (what \<open>val || []\<close> and \<open>if (val)\<close> test).\<close>

fun truthy :: "js_value \<Rightarrow> bool" where
  "truthy JUndefined = False"
| "truthy JNull = False"
| "truthy (JBool b) = b"
| "truthy (JNumber NaN) = False"
| "truthy (JNumber (Num n)) = (n \<noteq> 0)"
| "truthy (JString s) = (s \<noteq> [])"
| "truthy (JArray _) = True"
| "truthy (JFunction _) = True"
| "truthy JObject = True"

text \<open>\<open>s.split(',')\<close>: the pieces between the separators, at least one piece.\<close>

fun split_on :: "char \<Rightarrow> string \<Rightarrow> string list" where
  "split_on d [] = [[]]"
| "split_on d (c # cs) =
     (if c = d then [] # split_on d cs
      else (let r = split_on d cs in (c # hd r) # tl r))"

text \<open>\<open>s.trim()\<close>: white space and line terminators removed at both ends.\<close>

definition is_js_space :: "char \<Rightarrow> bool" where
  "is_js_space c = (c \<in> {CHR 0x09, CHR 0x0A, CHR 0x0B, CHR 0x0C, CHR 0x0D, CHR 0x20, CHR 0xA0})"

definition trim :: "string \<Rightarrow> string" where
  "trim s = rev (dropWhile is_js_space (rev (dropWhile is_js_space s)))"

text \<open>
  \<open>compileTrust(val)\<close>. The last line of the source hands \<open>val || []\<close> to
  \<open>proxyaddr.compile\<close>, a function of the package \<open>proxy-addr\<close>, which is not part of
  the repository; it is the parameter \<open>compile\<close> here, and it may return a trust
  function or raise. \<open>compileTrust\<close> has no \<open>try\<close>: what \<open>compile\<close> raises, it raises.
\<close>

fun compileTrust :: "(js_value \<Rightarrow> 'e + trust_fn) \<Rightarrow> js_value \<Rightarrow> 'e + trust_fn" where
  "compileTrust compile (JFunction f) = Inr f"
| "compileTrust compile (JBool True) = Inr (\<lambda>a i. True)"
| "compileTrust compile (JNumber n) = Inr (\<lambda>a i. num_lt (Num i) n)"
| "compileTrust compile (JString s) =
     (let val = JArray (map (\<lambda>v. JString (trim v)) (split_on CHR '','' s))
      in compile (if truthy val then val else JArray []))"
| "compileTrust compile val = compile (if truthy val then val else JArray [])"


section \<open>Conditional requests\<close>

text \<open>
  \<open>req.headers\<close> is a dictionary from lower-case header names to strings; \<open>res.get(name)\<close>
  gives the response header or \<open>undefined\<close>.
\<close>

record request =
  headers :: "string \<rightharpoonup> string"

record response =
  get :: "string \<Rightarrow> string option"

text \<open>A header value is truthy when it is present and not the empty string.\<close>

fun present :: "string option \<Rightarrow> bool" where
  "present None = False"
| "present (Some s) = (s \<noteq> [])"

text \<open>
  \<open>parseTokenList(str)\<close>: the loop over \<open>i\<close> with its variables \<open>start\<close>, \<open>end\<close> and
  \<open>list\<close>; the second argument is what is left of \<open>str\<close> from index \<open>i\<close> on.
\<close>

fun parseTokenList_loop ::
  "string \<Rightarrow> string \<Rightarrow> nat \<Rightarrow> nat \<Rightarrow> nat \<Rightarrow> string list \<Rightarrow> string list" where
  "parseTokenList_loop str [] i start end list =
     (if start \<noteq> end then list @ [substring str start end] else list)"
| "parseTokenList_loop str (c # cs) i start end list =
     (if c = CHR 0x20 then
        (if start = end then parseTokenList_loop str cs (i + 1) (i + 1) (i + 1) list
         else parseTokenList_loop str cs (i + 1) start end list)
      else if c = CHR 0x2C then
        parseTokenList_loop str cs (i + 1) (i + 1) (i + 1)
          (if start \<noteq> end then list @ [substring str start end] else list)
      else parseTokenList_loop str cs (i + 1) start (i + 1) list)"

definition parseTokenList :: "string \<Rightarrow> string list" where
  "parseTokenList str = parseTokenList_loop str str 0 0 0 []"

text \<open>
  \<open>parseHttpDate(date)\<close>: \<open>date && Date.parse(date)\<close> is a number only when \<open>date\<close> is
  a non-empty string; \<open>Date.parse\<close>, a function of the language, is the parameter
  \<open>Date_parse\<close> and gives \<open>NaN\<close> for a string that is not a date.
\<close>

fun parseHttpDate :: "(string \<Rightarrow> js_number) \<Rightarrow> string option \<Rightarrow> js_number" where
  "parseHttpDate Date_parse None = NaN"
| "parseHttpDate Date_parse (Some date) = (if date = [] then NaN else Date_parse date)"

definition isPreconditionFailure ::
  "(string \<Rightarrow> js_number) \<Rightarrow> request \<Rightarrow> response \<Rightarrow> bool" where
  "isPreconditionFailure Date_parse req res =
     (let match = headers req ''if-match'' in
      if present match then
        (let etag = get res ''etag'' in
         \<not> present etag \<or>
         (the match \<noteq> ''*'' \<and>
          list_all (\<lambda>m. m \<noteq> the etag \<and> m \<noteq> ''W/'' @ the etag \<and> ''W/'' @ m \<noteq> the etag)
                   (parseTokenList (the match))))
      else
        (let unmodifiedSince = parseHttpDate Date_parse (headers req ''if-unmodified-since'') in
         if \<not> isNaN unmodifiedSince then
           (let lastModified = parseHttpDate Date_parse (get res ''Last-Modified'') in
            isNaN lastModified \<or> num_gt lastModified unmodifiedSince)
         else False))"

definition isRangeFresh ::
  "(string \<Rightarrow> js_number) \<Rightarrow> request \<Rightarrow> response \<Rightarrow> bool" where
  "isRangeFresh Date_parse req res =
     (let ifRange = headers req ''if-range'' in
      if \<not> present ifRange then True
      else if CHR 0x22 \<in> set (the ifRange) then
        (let etag = get res ''etag'' in present etag \<and> str_includes (the ifRange) (the etag))
      else
        (let lastModified = get res ''Last-Modified'' in
         num_le (parseHttpDate Date_parse lastModified) (parseHttpDate Date_parse ifRange)))"

text \<open>A stand-in for \<open>Date.parse\<close> that knows two dates, for evaluating the functions above.\<close>

definition epoch_only :: "string \<Rightarrow> js_number" where
  "epoch_only s = (if s = ''Thu, 01 Jan 1970 00:00:00 GMT'' then Num 0
                   else if s = ''Thu, 01 Jan 1970 00:00:01 GMT'' then Num 1000 else NaN)"

section \<open>Regular expressions\<close>

text \<open>
  \<open>patternToRegex\<close> builds the source text of a regular expression and hands it to
  \<open>new RegExp\<close>. The constructor and the matcher belong to the language; they are
  modelled for the part of the syntax that the compiled templates use: literal and
  escaped characters, \<open>.\<close>, \<open>^\<close>, \<open>$\<close>, alternatives, character classes without ranges,
  the quantifiers \<open>*\<close> \<open>+\<close> \<open>?\<close> (also lazy), capturing, named, non-capturing and
  lookahead groups. Source text outside that part is reported as \<open>NotModelled\<close>, never
  as a compiled expression.
\<close>

datatype regex =
    Empty
  | Chr char
  | Dot
  | In string
  | NotIn string
  | Bol
  | Eol
  | Seq regex regex
  | Alt regex regex
  | Star regex
  | Plus regex
  | Opt regex
  | Group "string option" regex
  | Look bool regex

datatype re_error = SyntaxError string | NotModelled

subsection \<open>Matching\<close>

text \<open>
  \<open>ends r s i\<close> lists the positions at which a match of \<open>r\<close> that starts at position
  \<open>i\<close> of \<open>s\<close> can end. Without back-references, whether the backtracking matcher finds
  a match depends on these positions only; a greedy and a lazy quantifier reach the same
  positions. No flag is set: \<open>^\<close> and \<open>$\<close> are the ends of the input, and \<open>.\<close> is any
  character but a line terminator. For a repetition the positions are collected in
  rounds, one more repetition each round; no position lies beyond the end of \<open>s\<close>, so
  \<open>length s + 1\<close> rounds find them all (lemma \<open>ends_Star_closure\<close> below).
\<close>

fun iterate_ends :: "(nat \<Rightarrow> nat list) \<Rightarrow> nat \<Rightarrow> nat list \<Rightarrow> nat list" where
  "iterate_ends f 0 xs = xs"
| "iterate_ends f (Suc n) xs = iterate_ends f n (remdups (xs @ concat (map f xs)))"

definition closed_under :: "(nat \<Rightarrow> nat list) \<Rightarrow> nat set \<Rightarrow> bool" where
  "closed_under f S = (\<forall>x \<in> S. set (f x) \<subseteq> S)"

definition line_terminator :: "char \<Rightarrow> bool" where
  "line_terminator c = (c = CHR 0x0A \<or> c = CHR 0x0D)"

fun ends :: "regex \<Rightarrow> string \<Rightarrow> nat \<Rightarrow> nat list" where
  "ends Empty s i = [i]"
| "ends (Chr c) s i = (if i < length s \<and> s ! i = c then [Suc i] else [])"
| "ends Dot s i = (if i < length s \<and> \<not> line_terminator (s ! i) then [Suc i] else [])"
| "ends (In cs) s i = (if i < length s \<and> s ! i \<in> set cs then [Suc i] else [])"
| "ends (NotIn cs) s i = (if i < length s \<and> s ! i \<notin> set cs then [Suc i] else [])"
| "ends Bol s i = (if i = 0 then [i] else [])"
| "ends Eol s i = (if i = length s then [i] else [])"
| "ends (Seq a b) s i = concat (map (\<lambda>j. ends b s j) (ends a s i))"
| "ends (Alt a b) s i = ends a s i @ ends b s i"
| "ends (Star r) s i = iterate_ends (\<lambda>j. ends r s j) (Suc (length s)) [i]"
| "ends (Plus r) s i =
     concat (map (\<lambda>k. iterate_ends (\<lambda>j. ends r s j) (Suc (length s)) [k]) (ends r s i))"
| "ends (Opt r) s i = i # ends r s i"
| "ends (Group n r) s i = ends r s i"
| "ends (Look positive r) s i = (if (ends r s i \<noteq> []) = positive then [i] else [])"


subsection \<open>The constructor\<close>

text \<open>
  The source text is read one character at a time. The state holds the open groups
  (each with the alternatives and terms read before it was opened), the finished
  alternatives and the terms of the current alternative, both latest first, what a
  quantifier would apply to, and the group names seen so far. A group name that was
  seen before is an early error of the language (editions 2018 to 2024; the edition of
  2025 allows a name again in another alternative, which is not modelled).

  Two things are read without being modelled. An opening brace is a literal character
  or the start of a counted quantifier; it is read as a character. A backslash before a
  letter, a digit, the underscore or a character beyond ASCII, other than \<open>\d\<close> and
  \<open>\w\<close>, is a class, a boundary, a reference or a character given by its code; it is
  read as one character. Either way the constructor goes on as the language does, so
  that it finds no syntax error that the language does not have, and the state is marked:
  the expression is then reported as \<open>NotModelled\<close> unless a syntax error is found in
  the rest.
\<close>

datatype gkind = Capture "string option" | NonCapture | Lookahead bool

datatype pmode = Normal | Esc | Open | OpenQ | OpenQLt | Name string | ClassStart | Class bool string

datatype plast = NoAtom | Atom | Quantified

record pstate =
  mode :: pmode
  stack :: "(gkind \<times> regex list \<times> regex list) list"
  alts :: "regex list"
  terms :: "regex list"
  last :: plast
  names :: "string list"
  unmodelled :: bool

definition init_pstate :: pstate where
  "init_pstate = \<lparr>mode = Normal, stack = [], alts = [], terms = [], last = NoAtom, names = [],
                   unmodelled = False\<rparr>"

fun seq_of :: "regex list \<Rightarrow> regex" where
  "seq_of [] = Empty"
| "seq_of [r] = r"
| "seq_of (r # rs) = Seq r (seq_of rs)"

fun alt_of :: "regex list \<Rightarrow> regex" where
  "alt_of [] = Empty"
| "alt_of [r] = r"
| "alt_of (r # rs) = Alt r (alt_of rs)"

definition close_group :: "regex list \<Rightarrow> regex list \<Rightarrow> regex" where
  "close_group as ts = alt_of (rev (seq_of (rev ts) # as))"

fun wrap :: "gkind \<Rightarrow> regex \<Rightarrow> regex" where
  "wrap (Capture n) r = Group n r"
| "wrap NonCapture r = r"
| "wrap (Lookahead positive) r = Look positive r"

definition is_digit :: "char \<Rightarrow> bool" where
  "is_digit c = (c \<in> set ''0123456789'')"

definition is_alpha :: "char \<Rightarrow> bool" where
  "is_alpha c = (c \<in> set ''abcdefghijklmnopqrstuvwxyzABCDEFGHIJKLMNOPQRSTUVWXYZ'')"

text \<open>\<open>\w\<close>: a letter, a digit or the underscore.\<close>

definition is_word :: "char \<Rightarrow> bool" where
  "is_word c = (is_alpha c \<or> is_digit c \<or> c = CHR ''_'')"

definition digit_chars :: string where
  "digit_chars = ''0123456789''"

definition word_chars :: string where
  "word_chars = ''abcdefghijklmnopqrstuvwxyzABCDEFGHIJKLMNOPQRSTUVWXYZ0123456789_''"

definition push :: "gkind \<Rightarrow> pstate \<Rightarrow> pstate" where
  "push k st = st\<lparr>mode := Normal, stack := (k, alts st, terms st) # stack st,
                   alts := [], terms := [], last := NoAtom\<rparr>"

definition add_term :: "regex \<Rightarrow> plast \<Rightarrow> pstate \<Rightarrow> pstate" where
  "add_term r l st = st\<lparr>mode := Normal, terms := r # terms st, last := l\<rparr>"

definition quantify :: "char \<Rightarrow> regex \<Rightarrow> regex" where
  "quantify c r = (if c = CHR ''*'' then Star r else if c = CHR ''+'' then Plus r else Opt r)"

definition normal_step :: "pstate \<Rightarrow> char \<Rightarrow> re_error + pstate" where
  "normal_step st c =
     (if c = CHR 0x5C then Inr (st\<lparr>mode := Esc\<rparr>)
      else if c = CHR ''('' then Inr (st\<lparr>mode := Open\<rparr>)
      else if c = CHR '')'' then
        (case stack st of
           [] \<Rightarrow> Inl (SyntaxError ''Unmatched )'')
         | (k, as, ts) # stk \<Rightarrow>
             Inr (st\<lparr>stack := stk, alts := as,
                     terms := wrap k (close_group (alts st) (terms st)) # ts, last := Atom\<rparr>))
      else if c = CHR ''|'' then
        Inr (st\<lparr>alts := seq_of (rev (terms st)) # alts st, terms := [], last := NoAtom\<rparr>)
      else if c = CHR ''['' then Inr (st\<lparr>mode := ClassStart\<rparr>)
      else if c = CHR ''^'' then Inr (add_term Bol NoAtom st)
      else if c = CHR ''$'' then Inr (add_term Eol NoAtom st)
      else if c = CHR ''.'' then Inr (add_term Dot Atom st)
      else if c = CHR ''*'' \<or> c = CHR ''+'' \<or> c = CHR ''?'' then
        (case (last st, terms st) of
           (Atom, t # ts) \<Rightarrow> Inr (st\<lparr>terms := quantify c t # ts, last := Quantified\<rparr>)
         | (Quantified, _) \<Rightarrow>
             if c = CHR ''?'' then Inr (st\<lparr>last := NoAtom\<rparr>) else Inl (SyntaxError ''Nothing to repeat'')
         | _ \<Rightarrow> Inl (SyntaxError ''Nothing to repeat''))
      else if c = CHR ''{'' then Inr ((add_term (Chr c) Atom st)\<lparr>unmodelled := True\<rparr>)
      else Inr (add_term (Chr c) Atom st))"

definition class_step :: "bool \<Rightarrow> string \<Rightarrow> pstate \<Rightarrow> char \<Rightarrow> re_error + pstate" where
  "class_step negated cs st c =
     (if c = CHR '']'' then Inr (add_term (if negated then NotIn cs else In cs) Atom st)
      else if c = CHR 0x5C \<or> c = CHR ''-'' then Inl NotModelled
      else Inr (st\<lparr>mode := Class negated (cs @ [c])\<rparr>))"

text \<open>
  A group name starts with a letter, \<open>$\<close> or \<open>_\<close> and goes on with these or digits
  (names with characters beyond ASCII are not modelled).
\<close>

definition name_start :: "char \<Rightarrow> bool" where
  "name_start c = (is_alpha c \<or> c = CHR ''$'' \<or> c = CHR ''_'')"

definition name_part :: "char \<Rightarrow> bool" where
  "name_part c = (name_start c \<or> is_digit c)"

definition ascii :: "char \<Rightarrow> bool" where
  "ascii c = (of_char c < (128::nat))"

fun step :: "pstate \<Rightarrow> char \<Rightarrow> re_error + pstate" where
  "step st c =
     (case mode st of
        Normal \<Rightarrow> normal_step st c
      | Esc \<Rightarrow>
          if c = CHR ''d'' then Inr (add_term (In digit_chars) Atom st)
          else if c = CHR ''w'' then Inr (add_term (In word_chars) Atom st)
          else if is_word c \<or> \<not> ascii c then
            Inr ((add_term (Chr c) Atom st)\<lparr>unmodelled := True\<rparr>)
          else Inr (add_term (Chr c) Atom st)
      | Open \<Rightarrow>
          if c = CHR ''?'' then Inr (st\<lparr>mode := OpenQ\<rparr>)
          else normal_step (push (Capture None) st) c
      | OpenQ \<Rightarrow>
          if c = CHR '':'' then Inr (push NonCapture st)
          else if c = CHR ''='' then Inr (push (Lookahead True) st)
          else if c = CHR ''!'' then Inr (push (Lookahead False) st)
          else if c = CHR ''<'' then Inr (st\<lparr>mode := OpenQLt\<rparr>)
          else Inl (SyntaxError ''Invalid group'')
      | OpenQLt \<Rightarrow>
          if c = CHR ''='' \<or> c = CHR ''!'' \<or> \<not> ascii c then Inl NotModelled
          else if name_start c then Inr (st\<lparr>mode := Name [c]\<rparr>)
          else Inl (SyntaxError ''Invalid capture group name'')
      | Name n \<Rightarrow>
          if c = CHR ''>'' then
            (if n \<in> set (names st) then Inl (SyntaxError ''Duplicate capture group name'')
             else Inr ((push (Capture (Some n)) st)\<lparr>names := n # names st\<rparr>))
          else if \<not> ascii c then Inl NotModelled
          else if name_part c then Inr (st\<lparr>mode := Name (n @ [c])\<rparr>)
          else Inl (SyntaxError ''Invalid capture group name'')
      | ClassStart \<Rightarrow>
          if c = CHR ''^'' then Inr (st\<lparr>mode := Class True []\<rparr>)
          else class_step False [] st c
      | Class negated cs \<Rightarrow> class_step negated cs st c)"

fun run :: "re_error + pstate \<Rightarrow> string \<Rightarrow> re_error + pstate" where
  "run (Inl e) cs = Inl e"
| "run (Inr st) [] = Inr st"
| "run (Inr st) (c # cs) = run (step st c) cs"

definition finish :: "pstate \<Rightarrow> re_error + regex" where
  "finish st =
     (case mode st of
        Normal \<Rightarrow>
          (case stack st of
             [] \<Rightarrow> if unmodelled st then Inl NotModelled
                   else Inr (close_group (alts st) (terms st))
           | _ \<Rightarrow> Inl (SyntaxError ''Unterminated group''))
      | Esc \<Rightarrow> Inl (SyntaxError ''Escape at end of pattern'')
      | ClassStart \<Rightarrow> Inl (SyntaxError ''Unterminated character class'')
      | Class _ _ \<Rightarrow> Inl (SyntaxError ''Unterminated character class'')
      | _ \<Rightarrow> Inl (SyntaxError ''Invalid group''))"

text \<open>\<open>new RegExp(source)\<close>: the compiled expression, or the error it raises.\<close>

definition new_RegExp :: "string \<Rightarrow> re_error + regex" where
  "new_RegExp source = (case run (Inr init_pstate) source of Inl e \<Rightarrow> Inl e | Inr st \<Rightarrow> finish st)"

section \<open>Pattern compilation\<close>

text \<open>\<open>s.replaceAll(c, r)\<close> for a one-character search string.\<close>

definition replaceAll :: "char \<Rightarrow> string \<Rightarrow> string \<Rightarrow> string" where
  "replaceAll c r s = concat (map (\<lambda>x. if x = c then r else [x]) s)"

text \<open>
  \<open>s.replace(/:(\w+)(\(.+?\))?/g, callback)\<close> cuts \<open>s\<close> into the matches of the expression
  and the characters between them, and puts the callback's result in the place of each
  match. A match is a colon, the longest run of word characters after it (at least one)
  and, when it follows at once, a parenthesised group: an opening parenthesis, one
  character, and then as few characters as possible up to a closing parenthesis, none of
  them a line terminator. \<open>paren_group\<close> gives that group and the text after it.
\<close>

datatype segment = Lit char | Tok string "string option"

definition paren_group :: "string \<Rightarrow> (string \<times> string) option" where
  "paren_group s =
     (case s of
        a # x # ys \<Rightarrow>
          if a = CHR ''('' \<and> \<not> line_terminator x then
            (let inside = (\<lambda>c. c \<noteq> CHR '')'' \<and> \<not> line_terminator c) in
             case dropWhile inside ys of
               [] \<Rightarrow> None
             | b # rest \<Rightarrow>
                 if b = CHR '')'' then Some (a # x # takeWhile inside ys @ [b], rest) else None)
          else None
      | _ \<Rightarrow> None)"

lemma paren_group_shorter:
  assumes "paren_group s = Some (g, rest)"
  shows "length rest < length s"
proof -
  let ?inside = "\<lambda>c. c \<noteq> CHR '')'' \<and> \<not> line_terminator c"
  from assms obtain a x ys b where s: "s = a # x # ys" and d: "dropWhile ?inside ys = b # rest"
    unfolding paren_group_def Let_def
    by (auto split: list.splits if_splits)
  have "length rest < length (dropWhile ?inside ys)" using d by simp
  also have "\<dots> \<le> length ys" by (rule length_dropWhile_le)
  finally show ?thesis using s by simp
qed

function tokens :: "string \<Rightarrow> segment list" where
  "tokens [] = []"
| "tokens (c # cs) =
     (if c = CHR '':'' \<and> takeWhile is_word cs \<noteq> [] then
        (case paren_group (dropWhile is_word cs) of
           Some (g, rest) \<Rightarrow> Tok (takeWhile is_word cs) (Some g) # tokens rest
         | None \<Rightarrow> Tok (takeWhile is_word cs) None # tokens (dropWhile is_word cs))
      else Lit c # tokens cs)"
  by pat_completeness auto
termination
proof (relation "measure length", goal_cases)
  case 1
  show ?case by simp
next
  case (2 c cs)
  show ?case by (simp add: less_Suc_eq_le length_dropWhile_le)
next
  case (3 c cs x2 g rest)
  have "length rest < length (dropWhile is_word cs)"
    using 3 paren_group_shorter [of "dropWhile is_word cs" g rest] by simp
  also have "\<dots> \<le> length cs" by (rule length_dropWhile_le)
  finally show ?case by simp
next
  case (4 c cs)
  show ?case by simp
qed

declare tokens.simps(2) [simp del]

text \<open>
  The callback of \<open>patternToRegex\<close>: a named group that captures the given sub-pattern
  followed by the end of the input or a slash, or else a run of characters other than
  the slash.
\<close>

fun render :: "segment \<Rightarrow> string" where
  "render (Lit c) = [c]"
| "render (Tok param regex) =
     ''(?<'' @ param @ ''>'' @
     (case regex of Some r \<Rightarrow> r @ ''($|'' @ [CHR 0x5C] @ ''/)'' | None \<Rightarrow> ''[^/]+'') @ '')''"

definition replace_params :: "string \<Rightarrow> string" where
  "replace_params s = concat (map render (tokens s))"

text \<open>The names the callback is called with, in order.\<close>

fun params_of :: "segment list \<Rightarrow> string list" where
  "params_of [] = []"
| "params_of (Lit c # segs) = params_of segs"
| "params_of (Tok param regex # segs) = param # params_of segs"

text \<open>The three \<open>replaceAll\<close> calls that come before the callback.\<close>

definition escape :: "string \<Rightarrow> string" where
  "escape pattern =
     replaceAll CHR ''*'' ''(.*)''
       (replaceAll CHR ''-'' [CHR 0x5C, CHR ''-'']
         (replaceAll CHR ''.'' [CHR 0x5C, CHR ''.''] pattern))"

definition paramNames :: "string \<Rightarrow> string list" where
  "paramNames pattern = params_of (tokens (escape pattern))"

fun patternToRegex :: "regex pattern \<Rightarrow> bool \<Rightarrow> re_error + regex" where
  "patternToRegex (PRegExp r) isPrefix = Inr r"
| "patternToRegex (PString pattern) isPrefix =
     (if isPrefix \<and> pattern = [] then new_RegExp []
      else
        (let regexPattern = replace_params (escape pattern)
         in new_RegExp (''^'' @ regexPattern @ (if isPrefix then ''(?=$|/)'' else ''$''))))"





text \<open>
  \<open>outer_alts st\<close> are the alternatives finished so far outside every group, and
  \<open>no_outer_alternative source\<close> says that the constructor, having read \<open>source\<close>, has
  found none: no vertical bar of \<open>source\<close> stands outside every group. \<open>under base st\<close>
  is the state \<open>st\<close> of a constructor that had read the terms \<open>base\<close> (latest first)
  outside every group before it read what led to \<open>st\<close>.
\<close>

definition outer_alts :: "pstate \<Rightarrow> regex list" where
  "outer_alts st = (if stack st = [] then alts st else fst (snd (List.last (stack st))))"


fun under_stack :: "regex list \<Rightarrow> (gkind \<times> regex list \<times> regex list) list
                     \<Rightarrow> (gkind \<times> regex list \<times> regex list) list" where
  "under_stack base [] = []"
| "under_stack base [(k, as, ts)] = [(k, as, ts @ base)]"
| "under_stack base (f # g # fs) = f # under_stack base (g # fs)"

definition under :: "regex list \<Rightarrow> pstate \<Rightarrow> pstate" where
  "under base st =
     (if stack st = [] then st\<lparr>terms := terms st @ base\<rparr>
      else st\<lparr>stack := under_stack base (stack st)\<rparr>)"

section \<open>Query parsing\<close>

text \<open>
  \<open>fastQueryParse(query, options)\<close> chooses between \<open>querystring.parse\<close> (package
  \<open>fast-querystring\<close>) and \<open>qs.parse\<close> (package \<open>qs\<close>); both are parameters here.
\<close>

definition fastQueryParse ::
  "(string \<Rightarrow> 'q) \<Rightarrow> (string \<Rightarrow> 'o \<Rightarrow> 'q) \<Rightarrow> string \<Rightarrow> 'o \<Rightarrow> 'q" where
  "fastQueryParse querystring_parse qs_parse query options =
     (if length query \<le> 128 \<and>
         \<not> str_includes query ''['' \<and> \<not> str_includes query ''%5B'' \<and>
         \<not> str_includes query ''.'' \<and> \<not> str_includes query ''%2E''
      then querystring_parse query
      else qs_parse query options)"

section \<open>Lemmas and theorems\<close>

subsection \<open>Repetition in the matcher\<close>

lemma iterate_ends_mono: "set xs \<subseteq> set (iterate_ends f n xs)"
proof (induction n arbitrary: xs)
  case 0
  show ?case by simp
next
  case (Suc n)
  have "set xs \<subseteq> set (remdups (xs @ concat (map f xs)))" by auto
  also have "\<dots> \<subseteq> set (iterate_ends f n (remdups (xs @ concat (map f xs))))" by (rule Suc.IH)
  finally show ?case by simp
qed

lemma iterate_ends_closed:
  "closed_under f (set xs) \<Longrightarrow> set (iterate_ends f n xs) = set xs"
proof (induction n arbitrary: xs)
  case 0
  show ?case by simp
next
  case (Suc n)
  have eq: "set (remdups (xs @ concat (map f xs))) = set xs"
    using Suc.prems by (auto simp: closed_under_def)
  then have "closed_under f (set (remdups (xs @ concat (map f xs))))"
    using Suc.prems by simp
  then have "set (iterate_ends f n (remdups (xs @ concat (map f xs)))) = set xs"
    using Suc.IH eq by blast
  then show ?case by simp
qed

lemma iterate_ends_bounded:
  assumes "\<forall>x \<le> N. \<forall>y \<in> set (f x). y \<le> N" and "\<forall>x \<in> set xs. x \<le> N"
  shows "\<forall>y \<in> set (iterate_ends f n xs). y \<le> N"
  using assms(2)
proof (induction n arbitrary: xs)
  case 0
  then show ?case by simp
next
  case (Suc n)
  have "\<forall>x \<in> set (remdups (xs @ concat (map f xs))). x \<le> N"
    using Suc.prems assms(1) by auto
  then have "\<forall>y \<in> set (iterate_ends f n (remdups (xs @ concat (map f xs)))). y \<le> N"
    by (rule Suc.IH)
  then show ?case by simp
qed

lemma iterate_ends_grows:
  "closed_under f (set (iterate_ends f n xs)) \<or> card (set xs) + n \<le> card (set (iterate_ends f n xs))"
proof (induction n arbitrary: xs)
  case 0
  show ?case by simp
next
  case (Suc n)
  let ?ys = "remdups (xs @ concat (map f xs))"
  show ?case
  proof (cases "set ?ys = set xs")
    case True
    have "closed_under f (set xs)"
      unfolding closed_under_def
    proof
      fix x assume "x \<in> set xs"
      then have "set (f x) \<subseteq> set ?ys" by auto
      then show "set (f x) \<subseteq> set xs" using True by simp
    qed
    then have "closed_under f (set ?ys)" using True by simp
    then have "set (iterate_ends f n ?ys) = set ?ys" by (rule iterate_ends_closed)
    then show ?thesis using \<open>closed_under f (set ?ys)\<close> by simp
  next
    case False
    have "set xs \<subseteq> set ?ys" by auto
    then have "set xs \<subset> set ?ys" using False by blast
    then have "card (set xs) < card (set ?ys)" by (simp add: psubset_card_mono)
    then show ?thesis using Suc.IH [of ?ys] by auto
  qed
qed

lemma iterate_ends_reaches_closure:
  assumes "\<forall>x \<le> N. \<forall>y \<in> set (f x). y \<le> N" and "i \<le> N"
  shows "closed_under f (set (iterate_ends f (Suc N) [i]))"
proof (rule ccontr)
  assume "\<not> closed_under f (set (iterate_ends f (Suc N) [i]))"
  then have "card (set [i]) + Suc N \<le> card (set (iterate_ends f (Suc N) [i]))"
    using iterate_ends_grows [of f "Suc N" "[i]"] by blast
  then have big: "N + 2 \<le> card (set (iterate_ends f (Suc N) [i]))" by simp
  have "set (iterate_ends f (Suc N) [i]) \<subseteq> {0..N}"
    using iterate_ends_bounded [OF assms(1), of "[i]" "Suc N"] assms(2) by auto
  then have "card (set (iterate_ends f (Suc N) [i])) \<le> card {0..N}"
    by (intro card_mono) simp_all
  then show False using big by simp
qed

lemma iterate_ends_reachable:
  "y \<in> set (iterate_ends f n xs) \<Longrightarrow> \<exists>x \<in> set xs. (x, y) \<in> {(a, b). b \<in> set (f a)}\<^sup>*"
proof (induction n arbitrary: xs)
  case 0
  then show ?case by auto
next
  case (Suc n)
  let ?ys = "remdups (xs @ concat (map f xs))"
  from Suc.prems have "y \<in> set (iterate_ends f n ?ys)" by simp
  then obtain z where z: "z \<in> set ?ys" and zy: "(z, y) \<in> {(a, b). b \<in> set (f a)}\<^sup>*"
    using Suc.IH by blast
  from z consider "z \<in> set xs" | x where "x \<in> set xs" "z \<in> set (f x)" by auto
  then show ?case
  proof cases
    case 1
    then show ?thesis using zy by blast
  next
    case 2
    then have "(x, z) \<in> {(a, b). b \<in> set (f a)}" by simp
    then have "(x, y) \<in> {(a, b). b \<in> set (f a)}\<^sup>*" using zy by (rule converse_rtrancl_into_rtrancl)
    then show ?thesis using 2(1) by blast
  qed
qed

lemma closed_contains_reachable:
  assumes "closed_under f S" and "(x, y) \<in> {(a, b). b \<in> set (f a)}\<^sup>*" and "x \<in> S"
  shows "y \<in> S"
  using assms(2,3)
proof (induction rule: rtrancl_induct)
  case base
  then show ?case .
next
  case (step y z)
  then show ?case using assms(1) by (auto simp: closed_under_def)
qed

lemma ends_le: "i \<le> length s \<Longrightarrow> j \<in> set (ends r s i) \<Longrightarrow> j \<le> length s"
proof (induction r arbitrary: i j)
  case (Seq a b)
  have "j \<in> (\<Union>k \<in> set (ends a s i). set (ends b s k))"
    using Seq.prems(2) by (simp only: ends.simps set_concat set_map image_image)
  then obtain k where k: "k \<in> set (ends a s i)" and j: "j \<in> set (ends b s k)"
    by blast
  have "k \<le> length s" using Seq.IH(1) [OF Seq.prems(1) k] .
  then show ?case using Seq.IH(2) j by blast
next
  case (Star r)
  have "\<forall>x \<le> length s. \<forall>y \<in> set (ends r s x). y \<le> length s" using Star.IH by blast
  then have "\<forall>y \<in> set (iterate_ends (\<lambda>j. ends r s j) (Suc (length s)) [i]). y \<le> length s"
    using Star.prems(1) by (intro iterate_ends_bounded) simp_all
  then show ?case using Star.prems(2) by simp
next
  case (Plus r)
  have "j \<in> (\<Union>k \<in> set (ends r s i). set (iterate_ends (\<lambda>j. ends r s j) (Suc (length s)) [k]))"
    using Plus.prems(2) by (simp only: ends.simps set_concat set_map image_image)
  then obtain k where k: "k \<in> set (ends r s i)"
    and j: "j \<in> set (iterate_ends (\<lambda>j. ends r s j) (Suc (length s)) [k])"
    by blast
  have kl: "k \<le> length s" using Plus.IH [OF Plus.prems(1) k] .
  have "\<forall>x \<le> length s. \<forall>y \<in> set (ends r s x). y \<le> length s" using Plus.IH by blast
  then have "\<forall>y \<in> set (iterate_ends (\<lambda>j. ends r s j) (Suc (length s)) [k]). y \<le> length s"
    using kl by (intro iterate_ends_bounded) simp_all
  then show ?case using j by blast
next
  case Empty
  then show ?case by simp
next
  case (Chr c)
  show ?case using Chr.prems by (auto split: if_splits)
next
  case Dot
  show ?case using Dot.prems by (auto split: if_splits)
next
  case (In cs)
  show ?case using In.prems by (auto split: if_splits)
next
  case (NotIn cs)
  show ?case using NotIn.prems by (auto split: if_splits)
next
  case Bol
  show ?case using Bol.prems by (auto split: if_splits)
next
  case Eol
  show ?case using Eol.prems by (auto split: if_splits)
next
  case (Alt a b)
  have "j \<in> set (ends a s i) \<or> j \<in> set (ends b s i)" using Alt.prems(2) by simp
  then show ?case using Alt.IH Alt.prems(1) by blast
next
  case (Opt r)
  have "j = i \<or> j \<in> set (ends r s i)" using Opt.prems(2) by simp
  then show ?case using Opt.IH Opt.prems(1) by blast
next
  case (Group n r)
  have "j \<in> set (ends r s i)" using Group.prems(2) by simp
  then show ?case using Group.IH Group.prems(1) by blast
next
  case (Look positive r)
  have "j = i" using Look.prems(2) by (auto split: if_splits)
  then show ?case using Look.prems(1) by simp
qed

text \<open>
  The positions listed for a star are exactly those that repetitions of the body reach.
\<close>

lemma ends_Star_closure:
  assumes "i \<le> length s"
  shows "set (ends (Star r) s i) = {j. (i, j) \<in> {(a, b). b \<in> set (ends r s a)}\<^sup>*}"
proof -
  let ?f = "\<lambda>j. ends r s j"
  let ?S = "set (iterate_ends ?f (Suc (length s)) [i])"
  have bound: "\<forall>x \<le> length s. \<forall>y \<in> set (?f x). y \<le> length s" using ends_le by blast
  have closed: "closed_under ?f ?S"
    using bound assms by (rule iterate_ends_reaches_closure)
  have i: "i \<in> ?S" using iterate_ends_mono [of "[i]" ?f "Suc (length s)"] by simp
  have "?S = {j. (i, j) \<in> {(a, b). b \<in> set (?f a)}\<^sup>*}"
  proof (intro set_eqI iffI)
    fix j assume "j \<in> ?S"
    then show "j \<in> {j. (i, j) \<in> {(a, b). b \<in> set (?f a)}\<^sup>*}"
      using iterate_ends_reachable [of j ?f "Suc (length s)" "[i]"] by simp
  next
    fix j assume "j \<in> {j. (i, j) \<in> {(a, b). b \<in> set (?f a)}\<^sup>*}"
    then have "(i, j) \<in> {(a, b). b \<in> set (?f a)}\<^sup>*" by simp
    then show "j \<in> ?S" by (rule closed_contains_reachable [OF closed _ i])
  qed
  then show ?thesis by simp
qed

subsection \<open>Strings\<close>

lemma includes_single: "str_includes s [c] \<longleftrightarrow> c \<in> set s"
  by (induction s) auto

subsection \<open>Duplicate slashes\<close>

lemma rds_head:
  "removeDuplicateSlashes s = [] \<or> hd (removeDuplicateSlashes s) = hd s"
  by (cases s) (auto simp: removeDuplicateSlashes.simps(2))

lemma dropWhile_slash_head:
  "dropWhile (\<lambda>x. x = CHR ''/'') cs = [] \<or> hd (dropWhile (\<lambda>x. x = CHR ''/'') cs) \<noteq> CHR ''/''"
  using hd_dropWhile [of "\<lambda>x. x = CHR ''/''" cs] by blast

lemma no_double_slash_Cons:
  "no_double_slash (a # s) \<longleftrightarrow> (s = [] \<or> \<not> (a = CHR ''/'' \<and> hd s = CHR ''/'')) \<and> no_double_slash s"
  by (cases s) auto

lemma rds_run:
  "removeDuplicateSlashes (CHR ''/'' # CHR ''/'' # cs)
     = CHR ''/'' # removeDuplicateSlashes (dropWhile (\<lambda>x. x = CHR ''/'') cs)"
  by (simp add: removeDuplicateSlashes.simps(2))

lemma rds_copy:
  "\<not> (c = CHR ''/'' \<and> cs \<noteq> [] \<and> hd cs = CHR ''/'') \<Longrightarrow>
   removeDuplicateSlashes (c # cs) = c # removeDuplicateSlashes cs"
  by (cases cs) (auto simp: removeDuplicateSlashes.simps(2))

lemma rds_head_not_slash:
  assumes "r = [] \<or> hd r \<noteq> CHR ''/''"
  shows "removeDuplicateSlashes r = [] \<or> hd (removeDuplicateSlashes r) \<noteq> CHR ''/''"
proof (cases r)
  case Nil
  then show ?thesis by simp
next
  case (Cons a as)
  with assms have "a \<noteq> CHR ''/''" by simp
  then have "removeDuplicateSlashes (a # as) = a # removeDuplicateSlashes as"
    by (simp add: rds_copy)
  with Cons \<open>a \<noteq> CHR ''/''\<close> show ?thesis by simp
qed

lemma rds_no_double: "no_double_slash (removeDuplicateSlashes s)"
proof (induction s rule: removeDuplicateSlashes.induct)
  case 1
  show ?case by simp
next
  case (2 c cs)
  let ?P = "\<lambda>x. x = CHR ''/''"
  show ?case
  proof (cases "c = CHR ''/'' \<and> cs \<noteq> [] \<and> hd cs = CHR ''/''")
    case True
    then obtain ds where cs: "cs = CHR ''/'' # ds" by (cases cs) auto
    have c: "c = CHR ''/''" using True by simp
    let ?r = "dropWhile ?P ds"
    have r: "dropWhile ?P cs = ?r" using cs by simp
    have "no_double_slash (removeDuplicateSlashes (dropWhile ?P cs))"
      using 2(1) c cs by simp
    then have ih: "no_double_slash (removeDuplicateSlashes ?r)" unfolding r .
    have "?r = [] \<or> hd ?r \<noteq> CHR ''/''" by (rule dropWhile_slash_head)
    then have h: "removeDuplicateSlashes ?r = [] \<or> hd (removeDuplicateSlashes ?r) \<noteq> CHR ''/''"
      by (rule rds_head_not_slash)
    have eq: "removeDuplicateSlashes (c # cs) = CHR ''/'' # removeDuplicateSlashes ?r"
      unfolding c cs by (rule rds_run)
    show ?thesis unfolding eq no_double_slash_Cons using ih h by blast
  next
    case False
    have eq: "removeDuplicateSlashes (c # cs) = c # removeDuplicateSlashes cs"
      using False by (rule rds_copy)
    have "\<not> (c = CHR ''/'' \<and> (case cs of [] \<Rightarrow> False | d # _ \<Rightarrow> d = CHR ''/''))"
      using False by (cases cs) auto
    then have ih: "no_double_slash (removeDuplicateSlashes cs)"
      using 2(2) by blast
    have h: "removeDuplicateSlashes cs = [] \<or> hd (removeDuplicateSlashes cs) = hd cs"
      by (rule rds_head)
    have e: "cs = [] \<Longrightarrow> removeDuplicateSlashes cs = []" by simp
    show ?thesis unfolding eq no_double_slash_Cons using ih h e False by metis
  qed
qed

lemma rds_fixed: "no_double_slash s \<Longrightarrow> removeDuplicateSlashes s = s"
proof (induction s rule: no_double_slash.induct)
  case (1 a b cs)
  then have "removeDuplicateSlashes (b # cs) = b # cs" and "\<not> (a = CHR ''/'' \<and> b = CHR ''/'')"
    by simp_all
  then show ?case using rds_copy [of a "b # cs"] by simp
qed (simp_all add: removeDuplicateSlashes.simps(2))

lemma no_double_slash_includes: "no_double_slash s \<Longrightarrow> \<not> str_includes s ''//''"
  by (induction s rule: no_double_slash.induct) auto

text \<open>
  C10. Collapsing duplicate slashes is idempotent: applying it to its own result changes
  nothing, for every input string; and its result never holds two slashes next to each
  other (stated on neighbouring characters and as \<open>includes('//')\<close>).
\<close>

theorem removeDuplicateSlashes_idempotent:
  "removeDuplicateSlashes (removeDuplicateSlashes s) = removeDuplicateSlashes s
   \<and> no_double_slash (removeDuplicateSlashes s)
   \<and> \<not> str_includes (removeDuplicateSlashes s) ''//''"
  by (simp add: rds_fixed rds_no_double no_double_slash_includes)

theorem removeDuplicateSlashes_idempotent_witness:
  "removeDuplicateSlashes ''/a//b///c'' = ''/a/b/c''
   \<and> removeDuplicateSlashes (removeDuplicateSlashes ''/a//b///c'') = ''/a/b/c''
   \<and> no_double_slash (removeDuplicateSlashes ''/a//b///c'')"
proof -
  have "removeDuplicateSlashes ''/a//b///c'' = ''/a/b/c''" by code_simp
  then show ?thesis
    using removeDuplicateSlashes_idempotent [of "''/a//b///c''"] by simp
qed

subsection \<open>Classification\<close>

text \<open>
  C4. \<open>canBeOptimized\<close> is true exactly for a string pattern other than \<open>/*\<close> that holds
  none of the nine characters \<open>* ? + ( ) { } [ ]\<close>, and never for a compiled expression;
  the colon is not looked at. \<open>needsConversionToRegex\<close> is true exactly for a string
  pattern other than \<open>/*\<close> that holds a colon or one of the nine. So a string pattern
  other than \<open>/*\<close> with a colon and none of the nine, such as \<open>/user/:id\<close>, passes both.
\<close>

theorem canBeOptimized_ignores_colon:
  "(canBeOptimized pt \<longleftrightarrow> (\<exists>p. pt = PString p \<and> p \<noteq> ''/*'' \<and> set p \<inter> regex_chars = {}))
   \<and> (needsConversionToRegex pt \<longleftrightarrow>
        (\<exists>p. pt = PString p \<and> p \<noteq> ''/*'' \<and> (CHR '':'' \<in> set p \<or> set p \<inter> regex_chars \<noteq> {})))
   \<and> (\<forall>p. pt = PString p \<and> p \<noteq> ''/*'' \<and> CHR '':'' \<in> set p \<and> set p \<inter> regex_chars = {}
         \<longrightarrow> canBeOptimized pt \<and> needsConversionToRegex pt)"
  by (cases pt) (auto simp: includes_single regex_chars_def)

theorem canBeOptimized_ignores_colon_witness:
  "canBeOptimized (PString ''/user/:id'' :: regex pattern)
   \<and> needsConversionToRegex (PString ''/user/:id'' :: regex pattern)
   \<and> \<not> canBeOptimized (PString ''/*'' :: regex pattern)
   \<and> \<not> canBeOptimized (PString ''/a/(b)'' :: regex pattern)"
  using canBeOptimized_ignores_colon [of "PString ''/user/:id'' :: regex pattern"]
        canBeOptimized_ignores_colon [of "PString ''/*'' :: regex pattern"]
        canBeOptimized_ignores_colon [of "PString ''/a/(b)'' :: regex pattern"]
  by (simp add: regex_chars_def)

subsection \<open>Proxy trust\<close>

text \<open>
  C6. For a hop count \<open>N \<ge> 0\<close>, \<open>compileTrust(N)\<close> returns a predicate (it does not
  raise, whatever \<open>proxyaddr.compile\<close> would do) that is true at address \<open>addr\<close> and hop
  index \<open>i \<ge> 0\<close> exactly when \<open>i < N\<close>.
\<close>

theorem compileTrust_hop_count:
  assumes "0 \<le> N"
  shows "\<exists>f. compileTrust compile (JNumber (Num N)) = Inr f
             \<and> (\<forall>addr i. 0 \<le> i \<longrightarrow> (f addr i \<longleftrightarrow> i < N))"
  by simp

theorem compileTrust_hop_count_witness:
  "\<exists>f. compileTrust (\<lambda>v. Inl (TypeError ''unused'')) (JNumber (Num 2)) = Inr f
        \<and> f ''10.0.0.1'' 0 \<and> f ''10.0.0.1'' 1 \<and> \<not> f ''10.0.0.1'' 2"
  using compileTrust_hop_count [of 2 "\<lambda>v. Inl (TypeError ''unused'')"] by auto

subsection \<open>Conditional requests\<close>

text \<open>
  C1, as the code has it. With \<open>If-Match: *\<close> the precondition fails exactly when the
  response has no entity tag (none set, or the empty string): the test \<open>!etag\<close> comes
  before the test for \<open>*\<close>. With an entity tag present, \<open>*\<close> never fails, whatever the tag.
\<close>

theorem if_match_star_needs_etag:
  assumes "headers req ''if-match'' = Some ''*''"
  shows "isPreconditionFailure Date_parse req res \<longleftrightarrow> \<not> present (get res ''etag'')"
  using assms by (simp add: isPreconditionFailure_def)

theorem if_match_star_needs_etag_witness:
  "headers \<lparr>headers = [''if-match'' \<mapsto> ''*'']\<rparr> ''if-match'' = Some ''*''
   \<and> \<not> isPreconditionFailure epoch_only
       \<lparr>headers = [''if-match'' \<mapsto> ''*'']\<rparr> \<lparr>get = (\<lambda>n. if n = ''etag'' then Some ''W/abc'' else None)\<rparr>"
  using if_match_star_needs_etag [of "\<lparr>headers = [''if-match'' \<mapsto> ''*'']\<rparr>" epoch_only
          "\<lparr>get = (\<lambda>n. if n = ''etag'' then Some ''W/abc'' else None)\<rparr>"]
  by simp

text \<open>
  C1, as the claim states it, fails: a request with \<open>If-Match: *\<close> to a response without
  an entity tag is a precondition failure.
\<close>

theorem if_match_star_without_etag_fails:
  "headers \<lparr>headers = [''if-match'' \<mapsto> ''*'']\<rparr> ''if-match'' = Some ''*''
   \<and> isPreconditionFailure epoch_only \<lparr>headers = [''if-match'' \<mapsto> ''*'']\<rparr> \<lparr>get = (\<lambda>n. None)\<rparr>"
  by (simp add: isPreconditionFailure_def)

text \<open>
  C2, as the code has it. \<open>isRangeFresh\<close> is a total function (it raises nowhere). For a
  request whose \<open>If-Range\<close> header is present, not empty and without a double quote, the
  range is fresh exactly when both the response's \<open>Last-Modified\<close> value and the header
  parse as dates and the last-modified date is not later than the header's date. When
  either of them does not parse, the comparison with \<open>NaN\<close> is false: the range is stale.
\<close>

theorem isRangeFresh_dates:
  assumes "headers req ''if-range'' = Some h" and "h \<noteq> []" and "CHR 0x22 \<notin> set h"
  shows "isRangeFresh Date_parse req res \<longleftrightarrow>
           (\<exists>a b. parseHttpDate Date_parse (get res ''Last-Modified'') = Num a
                \<and> parseHttpDate Date_parse (Some h) = Num b \<and> a \<le> b)"
proof -
  have "isRangeFresh Date_parse req res =
          num_le (parseHttpDate Date_parse (get res ''Last-Modified'')) (parseHttpDate Date_parse (Some h))"
    using assms by (simp add: isRangeFresh_def)
  also have "\<dots> \<longleftrightarrow> (\<exists>a b. parseHttpDate Date_parse (get res ''Last-Modified'') = Num a
                \<and> parseHttpDate Date_parse (Some h) = Num b \<and> a \<le> b)"
    by (cases "parseHttpDate Date_parse (get res ''Last-Modified'')";
        cases "parseHttpDate Date_parse (Some h)") simp_all
  finally show ?thesis .
qed

theorem isRangeFresh_dates_witness:
  "isRangeFresh epoch_only \<lparr>headers = [''if-range'' \<mapsto> ''Thu, 01 Jan 1970 00:00:01 GMT'']\<rparr>
      \<lparr>get = (\<lambda>n. if n = ''Last-Modified'' then Some ''Thu, 01 Jan 1970 00:00:00 GMT'' else None)\<rparr>
   \<and> \<not> isRangeFresh epoch_only \<lparr>headers = [''if-range'' \<mapsto> ''Thu, 01 Jan 1970 00:00:00 GMT'']\<rparr>
      \<lparr>get = (\<lambda>n. if n = ''Last-Modified'' then Some ''Thu, 01 Jan 1970 00:00:01 GMT'' else None)\<rparr>"
  using isRangeFresh_dates [of "\<lparr>headers = [''if-range'' \<mapsto> ''Thu, 01 Jan 1970 00:00:01 GMT'']\<rparr>"
          "''Thu, 01 Jan 1970 00:00:01 GMT''" epoch_only
          "\<lparr>get = (\<lambda>n. if n = ''Last-Modified'' then Some ''Thu, 01 Jan 1970 00:00:00 GMT'' else None)\<rparr>"]
        isRangeFresh_dates [of "\<lparr>headers = [''if-range'' \<mapsto> ''Thu, 01 Jan 1970 00:00:00 GMT'']\<rparr>"
          "''Thu, 01 Jan 1970 00:00:00 GMT''" epoch_only
          "\<lparr>get = (\<lambda>n. if n = ''Last-Modified'' then Some ''Thu, 01 Jan 1970 00:00:01 GMT'' else None)\<rparr>"]
  by (simp add: epoch_only_def)

text \<open>
  C2, as the claim states it, fails: the header \<open>tomorrow\<close> has no double quote and does
  not parse as a date, and the range is not fresh.
\<close>

theorem isRangeFresh_unparsable_is_stale:
  "CHR 0x22 \<notin> set ''tomorrow''
   \<and> parseHttpDate epoch_only (Some ''tomorrow'') = NaN
   \<and> \<not> isRangeFresh epoch_only \<lparr>headers = [''if-range'' \<mapsto> ''tomorrow'']\<rparr>
      \<lparr>get = (\<lambda>n. if n = ''Last-Modified'' then Some ''Thu, 01 Jan 1970 00:00:00 GMT'' else None)\<rparr>"
  by (simp add: isRangeFresh_def epoch_only_def)

text \<open>
  C9. Without an \<open>If-Match\<close> header and with an \<open>If-Unmodified-Since\<close> header that parses
  to the timestamp \<open>t\<close>, the precondition fails exactly when the response's
  \<open>Last-Modified\<close> value does not parse as a date or parses to a timestamp greater
  than \<open>t\<close>.
\<close>

theorem if_unmodified_since_fails:
  assumes "headers req ''if-match'' = None"
    and "parseHttpDate Date_parse (headers req ''if-unmodified-since'') = Num t"
  shows "isPreconditionFailure Date_parse req res \<longleftrightarrow>
           (parseHttpDate Date_parse (get res ''Last-Modified'') = NaN
            \<or> (\<exists>m. parseHttpDate Date_parse (get res ''Last-Modified'') = Num m \<and> t < m))"
  using assms
  by (cases "parseHttpDate Date_parse (get res ''Last-Modified'')")
     (simp_all add: isPreconditionFailure_def)

theorem if_unmodified_since_fails_witness:
  "isPreconditionFailure epoch_only
      \<lparr>headers = [''if-unmodified-since'' \<mapsto> ''Thu, 01 Jan 1970 00:00:00 GMT'']\<rparr>
      \<lparr>get = (\<lambda>n. if n = ''Last-Modified'' then Some ''Thu, 01 Jan 1970 00:00:01 GMT'' else None)\<rparr>
   \<and> isPreconditionFailure epoch_only
      \<lparr>headers = [''if-unmodified-since'' \<mapsto> ''Thu, 01 Jan 1970 00:00:00 GMT'']\<rparr>
      \<lparr>get = (\<lambda>n. None)\<rparr>
   \<and> \<not> isPreconditionFailure epoch_only
      \<lparr>headers = [''if-unmodified-since'' \<mapsto> ''Thu, 01 Jan 1970 00:00:01 GMT'']\<rparr>
      \<lparr>get = (\<lambda>n. if n = ''Last-Modified'' then Some ''Thu, 01 Jan 1970 00:00:01 GMT'' else None)\<rparr>"
  using if_unmodified_since_fails [of
          "\<lparr>headers = [''if-unmodified-since'' \<mapsto> ''Thu, 01 Jan 1970 00:00:00 GMT'']\<rparr>" epoch_only 0
          "\<lparr>get = (\<lambda>n. if n = ''Last-Modified'' then Some ''Thu, 01 Jan 1970 00:00:01 GMT'' else None)\<rparr>"]
        if_unmodified_since_fails [of
          "\<lparr>headers = [''if-unmodified-since'' \<mapsto> ''Thu, 01 Jan 1970 00:00:00 GMT'']\<rparr>" epoch_only 0
          "\<lparr>get = (\<lambda>n. None)\<rparr>"]
        if_unmodified_since_fails [of
          "\<lparr>headers = [''if-unmodified-since'' \<mapsto> ''Thu, 01 Jan 1970 00:00:01 GMT'']\<rparr>" epoch_only 1000
          "\<lparr>get = (\<lambda>n. if n = ''Last-Modified'' then Some ''Thu, 01 Jan 1970 00:00:01 GMT'' else None)\<rparr>"]
  by (simp add: epoch_only_def)

subsection \<open>Compiled patterns\<close>






lemma replaceAll_Nil [simp]: "replaceAll c r [] = []"
  by (simp add: replaceAll_def)

lemma escape_Nil [simp]: "escape [] = []"
  by (simp add: escape_def)







subsection \<open>What was read before the template\<close>

text \<open>
  The constructor reads the template's expression after the anchor \<open>^\<close>. As long as the
  expression has no alternative at the outermost level, the terms read before it stay
  where they are: reading from \<open>under base st\<close> goes the way reading from \<open>st\<close> goes.
\<close>

lemma under_stack_Cons:
  "under_stack base (f # fs) =
     (if fs = [] then [(fst f, fst (snd f), snd (snd f) @ base)] else f # under_stack base fs)"
  by (cases f; cases fs) simp_all

lemma under_stack_Nil_iff [simp]: "under_stack base fs = [] \<longleftrightarrow> fs = []"
  by (cases fs) (simp_all add: under_stack_Cons)

lemma under_fields [simp]:
  "mode (under base st) = mode st"
  "alts (under base st) = alts st"
  "last (under base st) = last st"
  "names (under base st) = names st"
  "unmodelled (under base st) = unmodelled st"
  "stack (under base st) = under_stack base (stack st)"
  "terms (under base st) = (if stack st = [] then terms st @ base else terms st)"
  by (simp_all add: under_def)







lemma outer_alts_simps [simp]:
  "outer_alts (st\<lparr>mode := m\<rparr>) = outer_alts st"
  "outer_alts (st\<lparr>last := l\<rparr>) = outer_alts st"
  "outer_alts (st\<lparr>names := n\<rparr>) = outer_alts st"
  "outer_alts (st\<lparr>unmodelled := u\<rparr>) = outer_alts st"
  "outer_alts (st\<lparr>terms := ts\<rparr>) = outer_alts st"
  "outer_alts (add_term r l st) = outer_alts st"
  "outer_alts (push k st) = outer_alts st"
  by (simp_all add: outer_alts_def add_term_def push_def)





subsection \<open>Prefix compilation\<close>










subsection \<open>Literal templates\<close>















subsection \<open>Proxy trust: what is left to \<open>proxyaddr.compile\<close>\<close>





subsection \<open>Query parsing\<close>

lemma fastQueryParse_dispatch:
  "fastQueryParse flat nested query options =
     (if length query \<le> 128 \<and> (\<forall>sub \<in> {''['', ''%5B'', ''.'', ''%2E''}. \<not> str_includes query sub)
      then flat query else nested query options)"
  by (simp add: fastQueryParse_def)

subsection \<open>Duplicate parameter names\<close>


































text \<open>
  Without a character class: in \<open>(/\:a/:a\<close> the backslash makes the opening
  parenthesis of the first named group a literal character, and the parenthesis that the
  template opens is closed by the one that was to close that group.
\<close>

lemma repeated_param_after_escape_compiles:
  "paramNames (''(/'' @ [CHR 0x5C] @ '':a/:a'') = [''a'', ''a'']
   \<and> patternToRegex (PString (''(/'' @ [CHR 0x5C] @ '':a/:a'')) False =
       Inr (Seq Bol
             (Seq (Group None
                    (Seq (Chr CHR ''/'')
                      (Seq (Opt (Chr CHR ''(''))
                        (Seq (Chr CHR ''<'')
                          (Seq (Chr CHR ''a'') (Seq (Chr CHR ''>'') (Plus (NotIn ''/''))))))))
               (Seq (Chr CHR ''/'') (Seq (Group (Some ''a'') (Plus (NotIn ''/''))) Eol))))"
  by code_simp

text \<open>
  Likewise \<open>/:a(:a)\<close> compiles: the second \<open>:a\<close> is the sub-pattern of the first and
  is not looked at again.
\<close>

lemma repeated_param_in_subpattern_compiles:
  "paramNames ''/:a(:a)'' = [''a'']
   \<and> patternToRegex (PString ''/:a(:a)'') False =
       Inr (Seq Bol
             (Seq (Chr CHR ''/'')
               (Seq (Group (Some ''a'')
                      (Seq (Group None (Seq (Chr CHR '':'') (Chr CHR ''a'')))
                        (Group None (Alt Eol (Chr CHR ''/'')))))
                 Eol)))"
  by code_simp

end
